theory Spec2Isabelle
  imports Main "HOL-Library.Sublist"
begin

section \<open>WordRoom: the views, their delegates and the button actions\<close>

text \<open>
  The development embeds \<^verbatim>\<open>WordRoom.py\<close>. The script keeps its objects in module globals
  (\<^verbatim>\<open>vocab\<close>, \<^verbatim>\<open>lookup_view\<close>, \<^verbatim>\<open>word_view\<close>, \<^verbatim>\<open>compact_word_view\<close>, \<^verbatim>\<open>container\<close>);
  here they are the fields of one state record that every method takes and returns.
  Only the attributes the script itself reads or assigns are state. What the UI toolkit does
  on its own (a tap changing the table selection, the back button popping a screen) is not
  part of any function below.
\<close>

subsection \<open>Data\<close>

text \<open>A table coordinate as the script writes it in \<^verbatim>\<open>select_word\<close>: \<^verbatim>\<open>(section, row)\<close>.\<close>

type_synonym coord = "nat \<times> nat"

text \<open>The two instances of \<^verbatim>\<open>WordView\<close>, both loaded from the same UI file.\<close>

datatype view_id = Word_view | Compact_word_view

text \<open>
  The dictionary returned by \<^verbatim>\<open>define.define\<close>. The script reads the key
  \<^verbatim>\<open>'definitions'\<close> and hands the whole dictionary to the template.
\<close>

record define_result =
  definitions :: "string list"

text \<open>
  What a web view was last asked to load: the rendered \<^verbatim>\<open>loading.html\<close>, the rendered
  \<^verbatim>\<open>definition.html\<close> with the dictionary it was rendered from, or a literal string.
\<close>

datatype html = Loading_html | Definition_html define_result | Raw_html string

text \<open>The calls the script makes on \<^verbatim>\<open>lookup_view['table']\<close>, in the order it makes them.\<close>

datatype table_call =
    Insert_rows "coord list"
  | Delete_rows "coord list"
  | Select_rows "coord list"
  | Reload

text \<open>
  The attributes of a \<^verbatim>\<open>WordView\<close> that the script touches. \<^verbatim>\<open>segmentedcontrol1\<close> has
  two segments, so its index is 0 (notes) or 1 (definitions); the alpha values assigned are
  only 0.0 and 1.0.
\<close>

record word_view =
  blank_hidden :: bool
  share_enabled :: bool
  word_text :: string
  textview_text :: string
  selected_index :: nat
  html_definition :: html
  webcontainer_alpha :: nat
  textview_alpha :: nat

record frame =
  frame_x :: int
  frame_width :: int
  frame_height :: int
  frame_flex :: string
  frame_hidden :: bool

text \<open>
  \<^verbatim>\<open>vocabulary.py\<close> is not among the sources. The script assigns the attribute
  \<^verbatim>\<open>fulltext_toggle\<close> of the vocabulary directly; everything else of the object is the
  opaque component \<open>store\<close>, reached only through the methods collected in \<open>vocab_ops\<close>.
\<close>

record 'v vocabulary =
  fulltext_toggle :: bool
  store :: 'v

record 'v vocab_ops =
  get_notes :: "'v vocabulary \<Rightarrow> string \<Rightarrow> string"
  list_words :: "'v vocabulary \<Rightarrow> nat \<Rightarrow> string list"
  query :: "'v vocabulary \<Rightarrow> string"
  set_query :: "string \<Rightarrow> 'v vocabulary \<Rightarrow> 'v vocabulary"
  set_word :: "string \<Rightarrow> string \<Rightarrow> 'v vocabulary \<Rightarrow> coord option \<times> 'v vocabulary"
  del_dup_word :: "string \<Rightarrow> string \<Rightarrow> 'v vocabulary \<Rightarrow> coord option \<times> 'v vocabulary"
  delete_multiple :: "coord list \<Rightarrow> 'v vocabulary \<Rightarrow> string list \<times> 'v vocabulary"

text \<open>
  The globals. \<open>open_words\<close>, \<open>last_layout\<close> and the three frames belong to the
  \<^verbatim>\<open>AdaptiveView\<close> \<^verbatim>\<open>container\<close>; \<open>horizontal_size_class\<close> is what the trait collection
  currently reports; \<open>nav_stack\<close> lists the views pushed on \<^verbatim>\<open>container.nav_column\<close> above
  its root. \<open>selected_rows\<close> and \<open>table_calls\<close> belong to the table of the lookup view,
  the \<open>search_\<close> and \<open>cancel_\<close> fields to its search field, scope control and cancel button.
  \<open>background\<close> is the queue of \<^verbatim>\<open>@ui.in_background\<close> calls of \<^verbatim>\<open>load_definition\<close> that
  have been issued and have not run yet.
\<close>

record 'v state =
  vocab :: "'v vocabulary"
  word_view :: word_view
  compact_word_view :: word_view
  open_words :: "string list"
  last_layout :: "nat option"
  horizontal_size_class :: nat
  nav_stack :: "view_id list"
  self_frame :: frame
  nav_frame :: frame
  content_frame :: frame
  selected_rows :: "coord list"
  table_calls :: "table_call list"
  search_text :: string
  search_scope_index :: nat
  is_editing :: bool
  search_width :: int
  cancel_x :: int
  cancel_enabled :: bool
  lookup_width :: int
  background :: "(view_id \<times> string) list"

definition COMPACT :: nat where
  "COMPACT = 1"

definition REGULAR :: nat where
  "REGULAR = 2"

definition get_view :: "view_id \<Rightarrow> 'v state \<Rightarrow> word_view" where
  "get_view vid s = (case vid of Word_view \<Rightarrow> word_view s | Compact_word_view \<Rightarrow> compact_word_view s)"

definition put_view :: "view_id \<Rightarrow> word_view \<Rightarrow> 'v state \<Rightarrow> 'v state" where
  "put_view vid v s =
     (case vid of Word_view \<Rightarrow> s\<lparr>word_view := v\<rparr> | Compact_word_view \<Rightarrow> s\<lparr>compact_word_view := v\<rparr>)"

text \<open>Python's \<^verbatim>\<open>list.index\<close>, used only under the guard \<^verbatim>\<open>x in words\<close>.\<close>

fun index_of :: "'a list \<Rightarrow> 'a \<Rightarrow> nat" where
  "index_of [] y = 0"
| "index_of (x # xs) y = (if x = y then 0 else Suc (index_of xs y))"

subsection \<open>WordView\<close>

text \<open>
  \<^verbatim>\<open>switch_modes\<close>: \<^verbatim>\<open>animations = (switch_textview, switch_webview)\<close>, indexed by the
  selected segment. Animated or not, the same assignments are made. \<^verbatim>\<open>switch_webview\<close>
  also asks the text view to end editing; the delegate call that the toolkit makes when an
  edit was in progress is \<open>textview_did_end_editing\<close> below, a step of its own.
\<close>

definition switch_textview :: "word_view \<Rightarrow> word_view" where
  "switch_textview v = v\<lparr>webcontainer_alpha := 0, textview_alpha := 1\<rparr>"

definition switch_webview :: "word_view \<Rightarrow> word_view" where
  "switch_webview v = v\<lparr>webcontainer_alpha := 1, textview_alpha := 0\<rparr>"

definition switch_modes :: "word_view \<Rightarrow> word_view" where
  "switch_modes v = (if selected_index v = 0 then switch_textview v else switch_webview v)"

text \<open>
  \<^verbatim>\<open>select_word\<close>. The list of words is asked for with the section number before the
  query adjustment; the assignment to \<^verbatim>\<open>selected_rows\<close> is recorded as a \<open>Select_rows\<close> call.
\<close>

definition select_word :: "'v vocab_ops \<Rightarrow> view_id \<Rightarrow> 'v state \<Rightarrow> 'v state" where
  "select_word ops vid s =
     (let v = get_view vid s;
          section0 = (if textview_text v \<noteq> [] then 0 else 1);
          words = list_words ops (vocab s) section0;
          section = (if query ops (vocab s) \<noteq> [] then section0 + 1 else section0)
      in if word_text v \<in> set words then
           (let row = index_of words (word_text v)
            in if selected_rows s \<noteq> [(section, row)] then
                 s\<lparr>selected_rows := [(section, row)],
                   table_calls := table_calls s @ [Select_rows [(section, row)]]\<rparr>
               else s)
         else s)"

text \<open>
  \<^verbatim>\<open>load_word\<close>. The call of \<^verbatim>\<open>load_definition\<close> is decorated with
  \<^verbatim>\<open>@ui.in_background\<close>: it is queued and \<^verbatim>\<open>load_word\<close> goes on to \<^verbatim>\<open>select_word\<close>.
\<close>

definition load_word :: "'v vocab_ops \<Rightarrow> view_id \<Rightarrow> string \<Rightarrow> bool \<Rightarrow> 'v state \<Rightarrow> 'v state" where
  "load_word ops vid word force s =
     (let v = get_view vid s
      in if word_text v = word \<and> \<not> force then s
         else
           (let notes = get_notes ops (vocab s) word;
                v1 = v\<lparr>blank_hidden := True, share_enabled := True,
                       word_text := word, textview_text := notes\<rparr>;
                v2 = (if notes \<noteq> [] then v1\<lparr>selected_index := 0\<rparr>
                      else v1\<lparr>selected_index := 1, html_definition := Loading_html\<rparr>);
                s1 = put_view vid (switch_modes v2) s;
                s2 = s1\<lparr>background := background s1 @ [(vid, word)]\<rparr>
            in select_word ops vid s2))"

text \<open>\<^verbatim>\<open>clear\<close>, which also empties \<^verbatim>\<open>container.open_words\<close>.\<close>

definition clear :: "view_id \<Rightarrow> 'v state \<Rightarrow> 'v state" where
  "clear vid s =
     (let v = get_view vid s;
          v1 = v\<lparr>blank_hidden := False, word_text := [], textview_text := [],
                 html_definition := Raw_html [], share_enabled := False\<rparr>
      in (put_view vid v1 s)\<lparr>open_words := []\<rparr>)"

text \<open>
  The body of \<^verbatim>\<open>load_definition\<close>, run with the dictionary \<open>d\<close> that
  \<^verbatim>\<open>define.define(word)\<close> returned. \<^verbatim>\<open>set_word(word)\<close> is the call with the default
  \<^verbatim>\<open>notes=''\<close>.
\<close>

definition load_definition ::
  "'v vocab_ops \<Rightarrow> view_id \<Rightarrow> string \<Rightarrow> define_result \<Rightarrow> 'v state \<Rightarrow> 'v state" where
  "load_definition ops vid word d s =
     (let s1 = put_view vid ((get_view vid s)\<lparr>html_definition := Definition_html d\<rparr>) s
      in if definitions d \<noteq> [] \<and> get_notes ops (vocab s1) word = [] then
           (case set_word ops word [] (vocab s1) of
              (row, vocab') \<Rightarrow>
                (let s2 = s1\<lparr>vocab := vocab'\<rparr>
                 in case row of
                      Some r \<Rightarrow> s2\<lparr>table_calls := table_calls s2 @ [Insert_rows [r]]\<rparr>
                    | None \<Rightarrow> s2))
         else s1)"

text \<open>
  The background thread takes the oldest queued call and runs it; \<open>d\<close> is the answer of the
  definition provider for the word of that call.
\<close>

definition run_background :: "'v vocab_ops \<Rightarrow> define_result \<Rightarrow> 'v state \<Rightarrow> 'v state" where
  "run_background ops d s =
     (case background s of
        [] \<Rightarrow> s
      | (vid, word) # rest \<Rightarrow> load_definition ops vid word d (s\<lparr>background := rest\<rparr>))"

subsection \<open>Opening a word\<close>

text \<open>
  \<^verbatim>\<open>NavigationView.push_view\<close> puts a view on top of the stack; \<^verbatim>\<open>pop_view\<close> takes the
  top one off and leaves a stack that holds only the root as it is.
\<close>

definition push_view :: "view_id \<Rightarrow> 'v state \<Rightarrow> 'v state" where
  "push_view vid s = s\<lparr>nav_stack := nav_stack s @ [vid]\<rparr>"

definition pop_view :: "'v state \<Rightarrow> 'v state" where
  "pop_view s = s\<lparr>nav_stack := butlast (nav_stack s)\<rparr>"

text \<open>\<^verbatim>\<open>load_word_view\<close>; \<^verbatim>\<open>load_word\<close> is called with its default \<^verbatim>\<open>force=False\<close>.\<close>

definition load_word_view :: "'v vocab_ops \<Rightarrow> string \<Rightarrow> 'v state \<Rightarrow> 'v state" where
  "load_word_view ops word s =
     (let s1 = (if horizontal_size_class s = REGULAR then load_word ops Word_view word False s
                else push_view Compact_word_view (load_word ops Compact_word_view word False s))
      in s1\<lparr>open_words := [word]\<rparr>)"

subsection \<open>AdaptiveView\<close>

text \<open>
  What \<^verbatim>\<open>__init__\<close> assigns: no open word, no layout applied yet, and a navigation view
  that holds only its root.
\<close>

definition adaptive_view_init :: "'v state \<Rightarrow> 'v state" where
  "adaptive_view_init s = s\<lparr>open_words := [], last_layout := None, nav_stack := []\<rparr>"

text \<open>The loop of \<^verbatim>\<open>set_compact\<close> over \<^verbatim>\<open>self.open_words\<close>.\<close>

fun push_open_words :: "'v vocab_ops \<Rightarrow> string list \<Rightarrow> 'v state \<Rightarrow> 'v state" where
  "push_open_words ops [] s = s"
| "push_open_words ops (word # rest) s =
     push_open_words ops rest
       (push_view Compact_word_view (load_word ops Compact_word_view word False s))"

definition set_compact :: "'v vocab_ops \<Rightarrow> 'v state \<Rightarrow> 'v state" where
  "set_compact ops s =
     (let s1 = s\<lparr>nav_frame := (nav_frame s)\<lparr>frame_x := frame_x (self_frame s),
                                             frame_width := frame_width (self_frame s),
                                             frame_height := frame_height (self_frame s),
                                             frame_flex := ''WH''\<rparr>,
                 content_frame := (content_frame s)\<lparr>frame_hidden := True\<rparr>\<rparr>;
          s2 = push_open_words ops (open_words s1) s1
      in s2\<lparr>last_layout := Some COMPACT\<rparr>)"

text \<open>The loop of \<^verbatim>\<open>set_regular\<close>; \<^verbatim>\<open>self.content_column\<close> is \<^verbatim>\<open>word_view\<close>.\<close>

fun pop_open_words :: "'v vocab_ops \<Rightarrow> string list \<Rightarrow> 'v state \<Rightarrow> 'v state" where
  "pop_open_words ops [] s = s"
| "pop_open_words ops (word # rest) s =
     pop_open_words ops rest (load_word ops Word_view word False (pop_view s))"

definition set_regular :: "'v vocab_ops \<Rightarrow> 'v state \<Rightarrow> 'v state" where
  "set_regular ops s =
     (let nav = (nav_frame s)\<lparr>frame_width := 320,
                               frame_height := frame_height (self_frame s),
                               frame_flex := ''H'',
                               frame_x := frame_x (self_frame s)\<rparr>;
          content = (content_frame s)\<lparr>frame_hidden := False,
                                       frame_flex := ''WHR'',
                                       frame_x := frame_width nav + 1,
                                       frame_width := frame_width (self_frame s) - frame_width nav - 1,
                                       frame_height := frame_height (self_frame s)\<rparr>;
          s1 = s\<lparr>nav_frame := nav, content_frame := content\<rparr>;
          s2 = (if last_layout s1 = Some COMPACT then pop_open_words ops (open_words s1) s1 else s1)
      in s2\<lparr>last_layout := Some REGULAR\<rparr>)"

text \<open>\<^verbatim>\<open>layout\<close>: the two tests are made one after the other.\<close>

definition layout :: "'v vocab_ops \<Rightarrow> 'v state \<Rightarrow> 'v state" where
  "layout ops s =
     (let new_layout = horizontal_size_class s;
          s1 = (if new_layout = REGULAR \<and> last_layout s \<noteq> Some REGULAR then set_regular ops s else s)
      in if new_layout = COMPACT \<and> last_layout s1 \<noteq> Some COMPACT then set_compact ops s1 else s1)"

text \<open>
  A layout notification: the trait collection reports the size class \<open>mode\<close> and the
  toolkit calls \<^verbatim>\<open>layout\<close>.
\<close>

definition layout_changed :: "'v vocab_ops \<Rightarrow> nat \<Rightarrow> 'v state \<Rightarrow> 'v state" where
  "layout_changed ops mode s = layout ops (s\<lparr>horizontal_size_class := mode\<rparr>)"

subsection \<open>LookupView and the delegates\<close>

text \<open>
  The list comprehension of \<^verbatim>\<open>action_delete\<close>: \<^verbatim>\<open>(x[1], x[0])\<close>. The loop over the
  deleted words clears the content column, which is \<^verbatim>\<open>word_view\<close>, when it shows one of
  them. The alert at the end of the method changes no state.
\<close>

definition backwards :: "coord \<Rightarrow> coord" where
  "backwards x = (snd x, fst x)"

fun clear_deleted :: "string list \<Rightarrow> 'v state \<Rightarrow> 'v state" where
  "clear_deleted [] s = s"
| "clear_deleted (word # rest) s =
     clear_deleted rest (if word_text (word_view s) = word then clear Word_view s else s)"

definition action_delete :: "'v vocab_ops \<Rightarrow> 'v state \<Rightarrow> 'v state" where
  "action_delete ops s =
     (let rows = selected_rows s
      in case delete_multiple ops rows (vocab s) of
           (words, vocab') \<Rightarrow>
             clear_deleted words
               (s\<lparr>vocab := vocab',
                  table_calls := table_calls s @ [Delete_rows (map backwards rows)]\<rparr>))"

text \<open>
  \<^verbatim>\<open>TextViewDelegate.textview_did_end_editing\<close> for the text view of the word view \<open>vid\<close>.
  \<^verbatim>\<open>if row:\<close> tells a tuple from \<^verbatim>\<open>None\<close>.
\<close>

definition textview_did_end_editing :: "'v vocab_ops \<Rightarrow> view_id \<Rightarrow> 'v state \<Rightarrow> 'v state" where
  "textview_did_end_editing ops vid s =
     (let word = word_text (get_view vid s);
          notes = textview_text (get_view vid s)
      in case set_word ops word notes (vocab s) of
           (row1, vocab1) \<Rightarrow>
             (let s1 = s\<lparr>vocab := vocab1\<rparr>;
                  s2 = (case row1 of
                          Some r \<Rightarrow> s1\<lparr>table_calls := table_calls s1 @ [Insert_rows [r]]\<rparr>
                        | None \<Rightarrow> s1)
              in case del_dup_word ops word notes (vocab s2) of
                   (row2, vocab2) \<Rightarrow>
                     (let s3 = s2\<lparr>vocab := vocab2\<rparr>
                      in case row2 of
                           Some r \<Rightarrow> s3\<lparr>table_calls := table_calls s3 @ [Delete_rows [r]]\<rparr>
                         | None \<Rightarrow> s3)))"

text \<open>\<^verbatim>\<open>action_switch_search\<close>, with the scope control of the lookup view as sender.\<close>

definition action_switch_search :: "'v state \<Rightarrow> 'v state" where
  "action_switch_search s =
     s\<lparr>vocab := (vocab s)\<lparr>fulltext_toggle := (search_scope_index s \<noteq> 0)\<rparr>,
       table_calls := table_calls s @ [Reload]\<rparr>"

text \<open>Python's \<^verbatim>\<open>str.find\<close> for a single character: the lowest index, or -1.\<close>

definition find_char :: "string \<Rightarrow> char \<Rightarrow> int" where
  "find_char text c = (if c \<in> set text then int (index_of text c) else - 1)"

text \<open>\<^verbatim>\<open>SearchDelegate.textfield_did_end_editing\<close>.\<close>

definition textfield_did_end_editing :: "'v state \<Rightarrow> 'v state" where
  "textfield_did_end_editing s =
     (let s1 = s\<lparr>is_editing := False\<rparr>
      in if search_text s1 = [] then
           s1\<lparr>search_width := lookup_width s1 - 12,
              cancel_x := lookup_width s1 + 6,
              cancel_enabled := False\<rparr>
         else s1)"

text \<open>\<^verbatim>\<open>SearchDelegate.textfield_did_change\<close>.\<close>

definition textfield_did_change :: "'v vocab_ops \<Rightarrow> 'v state \<Rightarrow> 'v state" where
  "textfield_did_change ops s =
     (let s1 = s\<lparr>vocab := set_query ops (search_text s) (vocab s)\<rparr>;
          s2 = (if find_char (search_text s1) CHR ''#'' \<noteq> - 1
                then action_switch_search (s1\<lparr>search_scope_index := 1\<rparr>)
                else s1);
          s3 = (if \<not> is_editing s2 then textfield_did_end_editing s2 else s2)
      in s3\<lparr>table_calls := table_calls s3 @ [Reload]\<rparr>)"

text \<open>The user changes the content of the search field to \<open>text\<close>.\<close>

definition type_query :: "'v vocab_ops \<Rightarrow> string \<Rightarrow> 'v state \<Rightarrow> 'v state" where
  "type_query ops text s = textfield_did_change ops (s\<lparr>search_text := text\<rparr>)"

section \<open>The vocabulary, modelled from the specification\<close>

text \<open>
  The class \<^verbatim>\<open>Vocabulary\<close> lives in \<^verbatim>\<open>vocabulary.py\<close>, which is not among the sources. The
  definitions of this section follow the specification's Word Store and Query Engine; each
  says which sentence it follows and which choice the specification leaves open.
\<close>

text \<open>
  Modelled from the spec: the entry set of \<^verbatim>\<open>Vocabulary\<close> (its storage is missing). An entry
  is a word in its display form with its notes, possibly empty. The list is kept with the
  most recently written entry first, the first of the two ordering policies the
  specification names. \<open>query_text\<close> is the text of the current query, empty for none.
\<close>

record word_store =
  entries :: "(string \<times> string) list"
  query_text :: string

text \<open>
  Modelled from the spec: the identity key of a word (the key function of \<^verbatim>\<open>Vocabulary\<close> is
  missing), "normalized (lower-cased) word". A \<open>char\<close> is a byte, so the folding covers the
  letters A to Z.
\<close>

definition lower_char :: "char \<Rightarrow> char" where
  "lower_char c =
     (let n = (of_char c :: nat) in if 65 \<le> n \<and> n \<le> 90 then char_of (n + 32) else c)"

definition identity_key :: "string \<Rightarrow> string" where
  "identity_key word = map lower_char word"

text \<open>
  Modelled from the spec: the filter of the Query Engine (\<^verbatim>\<open>Vocabulary\<close>'s search is
  missing). "Empty text: no filtering"; word scope is "substring containment
  (case-insensitive) against the word", note scope "substring containment against the notes
  body". \<open>fulltext_toggle\<close> set means note scope.
\<close>

definition matches :: "word_store vocabulary \<Rightarrow> string \<times> string \<Rightarrow> bool" where
  "matches v e =
     (if query_text (store v) = [] then True
      else if fulltext_toggle v then sublist (query_text (store v)) (snd e)
      else sublist (identity_key (query_text (store v))) (identity_key (fst e)))"

text \<open>
  Modelled from the spec: the Annotated and History sections (\<^verbatim>\<open>Vocabulary.list_words\<close> is
  missing): the filtered entries with non-empty notes, and those with empty notes. Section
  0 is Annotated and section 1 History, as \<^verbatim>\<open>select_word\<close> numbers them.
\<close>

definition annotated :: "word_store vocabulary \<Rightarrow> string list" where
  "annotated v = map fst (filter (\<lambda>e. matches v e \<and> snd e \<noteq> []) (entries (store v)))"

definition history :: "word_store vocabulary \<Rightarrow> string list" where
  "history v = map fst (filter (\<lambda>e. matches v e \<and> snd e = []) (entries (store v)))"

definition spec_list_words :: "word_store vocabulary \<Rightarrow> nat \<Rightarrow> string list" where
  "spec_list_words v k = (if k = 0 then annotated v else if k = 1 then history v else [])"

text \<open>
  Modelled from the spec: the coordinate of a word in the table (\<^verbatim>\<open>Vocabulary\<close>'s data
  source methods are missing). While a query is active the live-search pseudo-section comes
  first and the two sections of entries follow it, which is the adjustment \<^verbatim>\<open>select_word\<close>
  makes. A word that the query filters out has no coordinate.
\<close>

definition coordinate_of :: "word_store vocabulary \<Rightarrow> string \<Rightarrow> coord option" where
  "coordinate_of v word =
     (let shift = (if query_text (store v) \<noteq> [] then 1 else 0)
      in if word \<in> set (annotated v) then Some (shift, index_of (annotated v) word)
         else if word \<in> set (history v) then Some (shift + 1, index_of (history v) word)
         else None)"

text \<open>
  Modelled from the spec: \<^verbatim>\<open>Vocabulary.get_notes\<close> (missing), "returns empty string if no
  entry exists"; the identity key is "used for uniqueness and lookup".
\<close>

definition spec_get_notes :: "word_store vocabulary \<Rightarrow> string \<Rightarrow> string" where
  "spec_get_notes v word =
     (case find (\<lambda>e. identity_key (fst e) = identity_key word) (entries (store v)) of
        None \<Rightarrow> []
      | Some e \<Rightarrow> snd e)"

text \<open>
  Modelled from the spec: \<^verbatim>\<open>Vocabulary.set_query\<close> and the attribute \<^verbatim>\<open>query\<close> (missing).
  The store keeps the text it is given.
\<close>

definition spec_set_query :: "string \<Rightarrow> word_store vocabulary \<Rightarrow> word_store vocabulary" where
  "spec_set_query text v = v\<lparr>store := (store v)\<lparr>query_text := text\<rparr>\<rparr>"

definition spec_query :: "word_store vocabulary \<Rightarrow> string" where
  "spec_query v = query_text (store v)"

text \<open>
  Modelled from the spec: \<^verbatim>\<open>Vocabulary.set_word\<close> (missing), the first half of the
  specification's \<^verbatim>\<open>setNotes\<close>: it "creates or updates the Entry" and the entry written
  becomes the most recent one. The caller passes a result that is not \<^verbatim>\<open>None\<close> to
  \<^verbatim>\<open>insert_rows\<close>, so the result is the coordinate of the row when the spelling is new to
  the store and \<^verbatim>\<open>None\<close> when an entry of that spelling was updated.
\<close>

definition spec_set_word ::
  "string \<Rightarrow> string \<Rightarrow> word_store vocabulary \<Rightarrow> coord option \<times> word_store vocabulary" where
  "spec_set_word word notes v =
     (let es = entries (store v);
          v' = v\<lparr>store := (store v)\<lparr>entries := (word, notes) # filter (\<lambda>e. fst e \<noteq> word) es\<rparr>\<rparr>
      in if word \<in> set (map fst es) then (None, v') else (coordinate_of v' word, v'))"

text \<open>
  Modelled from the spec: \<^verbatim>\<open>Vocabulary.del_dup_word\<close> (missing), the second half of
  \<^verbatim>\<open>setNotes\<close>: an entry of the same identity key with "a different display-case spelling"
  is stale; it is removed and its coordinate reported. The coordinate is the one the stale
  row has when the call is made, that is after the row of the new spelling went in, which
  is the table the caller's \<^verbatim>\<open>delete_rows\<close> acts on.
\<close>

definition is_stale :: "string \<Rightarrow> string \<times> string \<Rightarrow> bool" where
  "is_stale word e = (identity_key (fst e) = identity_key word \<and> fst e \<noteq> word)"

definition spec_del_dup_word ::
  "string \<Rightarrow> string \<Rightarrow> word_store vocabulary \<Rightarrow> coord option \<times> word_store vocabulary" where
  "spec_del_dup_word word notes v =
     (case find (is_stale word) (entries (store v)) of
        None \<Rightarrow> (None, v)
      | Some e \<Rightarrow>
          (coordinate_of v (fst e),
           v\<lparr>store := (store v)\<lparr>entries := filter (\<lambda>e. \<not> is_stale word e) (entries (store v))\<rparr>\<rparr>))"

text \<open>
  Modelled from the spec: \<^verbatim>\<open>Vocabulary.delete_multiple\<close> (missing), \<^verbatim>\<open>deleteWords\<close>: every
  coordinate is resolved against the table as it is before anything is deleted, which is
  what deleting the highest row first achieves; the words found are removed and returned.
\<close>

definition cell_at :: "word_store vocabulary \<Rightarrow> coord \<Rightarrow> string option" where
  "cell_at v c =
     (let shift = (if query_text (store v) \<noteq> [] then 1 else 0);
          words = (if fst c = shift then annotated v
                   else if fst c = shift + 1 then history v else [])
      in if snd c < length words then Some (words ! snd c) else None)"

definition spec_delete_multiple ::
  "coord list \<Rightarrow> word_store vocabulary \<Rightarrow> string list \<times> word_store vocabulary" where
  "spec_delete_multiple rows v =
     (let words = List.map_filter (cell_at v) rows
      in (words,
          v\<lparr>store := (store v)\<lparr>entries := filter (\<lambda>e. fst e \<notin> set words) (entries (store v))\<rparr>\<rparr>))"

definition spec_ops :: "word_store vocab_ops" where
  "spec_ops =
     \<lparr>get_notes = spec_get_notes,
      list_words = spec_list_words,
      query = spec_query,
      set_query = spec_set_query,
      set_word = spec_set_word,
      del_dup_word = spec_del_dup_word,
      delete_multiple = spec_delete_multiple\<rparr>"


text \<open>
  A note edit: the word view \<open>vid\<close> shows \<open>word\<close>, the user leaves its text view with the
  content \<open>notes\<close>, and the toolkit calls the delegate.
\<close>

definition note_edit :: "view_id \<Rightarrow> string \<Rightarrow> string \<Rightarrow> word_store state \<Rightarrow> word_store state" where
  "note_edit vid word notes s =
     textview_did_end_editing spec_ops vid
       (put_view vid ((get_view vid s)\<lparr>word_text := word, textview_text := notes\<rparr>) s)"


section \<open>A concrete state\<close>

text \<open>
  The state right after the script has started on an empty vocabulary, in compact size:
  both word views show the blank placeholder and nothing is selected.
\<close>

definition blank_word_view :: word_view where
  "blank_word_view =
     \<lparr>blank_hidden = False, share_enabled = False, word_text = [], textview_text = [],
      selected_index = 0, html_definition = Raw_html [], webcontainer_alpha = 0,
      textview_alpha = 1\<rparr>"

definition zero_frame :: frame where
  "zero_frame = \<lparr>frame_x = 0, frame_width = 0, frame_height = 0, frame_flex = [], frame_hidden = False\<rparr>"

definition start_state :: "word_store state" where
  "start_state =
     \<lparr>vocab = \<lparr>fulltext_toggle = False, store = \<lparr>entries = [], query_text = []\<rparr>\<rparr>,
      word_view = blank_word_view,
      compact_word_view = blank_word_view,
      open_words = [],
      last_layout = None,
      horizontal_size_class = COMPACT,
      nav_stack = [],
      self_frame = zero_frame\<lparr>frame_width := 375, frame_height := 667\<rparr>,
      nav_frame = zero_frame,
      content_frame = zero_frame,
      selected_rows = [],
      table_calls = [],
      search_text = [],
      search_scope_index = 0,
      is_editing = False,
      search_width = 363,
      cancel_x = 381,
      cancel_enabled = False,
      lookup_width = 375,
      background = []\<rparr>"

text \<open>The same state with the given entries in the vocabulary.\<close>

definition with_entries :: "(string \<times> string) list \<Rightarrow> word_store state \<Rightarrow> word_store state" where
  "with_entries es s = s\<lparr>vocab := (vocab s)\<lparr>store := (store (vocab s))\<lparr>entries := es\<rparr>\<rparr>\<rparr>"

section \<open>Selection calls\<close>

text \<open>
  The coordinate that \<^verbatim>\<open>select_word\<close> computes for the word a view displays, if the word is
  in the list it looks at.
\<close>

definition select_target :: "'v vocab_ops \<Rightarrow> view_id \<Rightarrow> 'v state \<Rightarrow> coord option" where
  "select_target ops vid s =
     (let v = get_view vid s;
          section0 = (if textview_text v \<noteq> [] then 0 else 1);
          words = list_words ops (vocab s) section0;
          section = (if query ops (vocab s) \<noteq> [] then section0 + 1 else section0)
      in if word_text v \<in> set words then Some (section, index_of words (word_text v)) else None)"

text \<open>The number of assignments to \<^verbatim>\<open>selected_rows\<close> made so far.\<close>

fun is_select :: "table_call \<Rightarrow> bool" where
  "is_select (Select_rows cs) = True"
| "is_select other = False"

definition select_count :: "'v state \<Rightarrow> nat" where
  "select_count s = length (filter is_select (table_calls s))"

text \<open>
  The entries of the specification's scenario, with the compact and with the regular layout
  applied, and the state after \<^verbatim>\<open>banana\<close> has been opened from the list in compact size.
\<close>

definition fruit_state :: "word_store state" where
  "fruit_state =
     with_entries [(''apple'', []), (''banana'', ''tasty''), (''apricot'', [])] start_state"

definition compact_fruit_state :: "word_store state" where
  "compact_fruit_state = fruit_state\<lparr>last_layout := Some COMPACT\<rparr>"

definition banana_state :: "word_store state" where
  "banana_state = load_word_view spec_ops ''banana'' compact_fruit_state"

definition regular_fruit_state :: "word_store state" where
  "regular_fruit_state =
     fruit_state\<lparr>horizontal_size_class := REGULAR, last_layout := Some REGULAR\<rparr>"


text \<open>
  In regular size \<^verbatim>\<open>plum\<close> is opened and then \<^verbatim>\<open>pear\<close>, before the definition of
  \<^verbatim>\<open>plum\<close> has arrived; \<open>plum_definition\<close> is the answer the provider then gives for
  \<^verbatim>\<open>plum\<close>.
\<close>

definition plum_definition :: define_result where
  "plum_definition = \<lparr>definitions = [''a fruit'']\<rparr>"

definition moved_on_state :: "word_store state" where
  "moved_on_state =
     load_word_view spec_ops ''pear'' (load_word_view spec_ops ''plum'' regular_fruit_state)"

text \<open>\<^verbatim>\<open>banana\<close> is open and selected, and the user types the query \<^verbatim>\<open>ap\<close>.\<close>

definition filtered_banana_state :: "word_store state" where
  "filtered_banana_state = type_query spec_ops ''ap'' banana_state"

text \<open>The row of \<^verbatim>\<open>apple\<close>, section 1 and row 0, is selected in the table.\<close>

definition apple_selected_state :: "word_store state" where
  "apple_selected_state = fruit_state\<lparr>selected_rows := [(1, 0)]\<rparr>"

text \<open>The word view shows \<^verbatim>\<open>cat\<close>, a word not in the vocabulary, with an empty text view.\<close>

definition cat_typed_state :: "word_store state" where
  "cat_typed_state =
     put_view Word_view ((word_view fruit_state)\<lparr>word_text := ''cat'', textview_text := []\<rparr>) fruit_state"

section \<open>What each method leaves alone\<close>

lemma get_put_view [simp]: "get_view vid (put_view vid v s) = v"
  by (cases vid) (simp_all add: get_view_def put_view_def)

lemma get_put_view_other [simp]:
  "vid' \<noteq> vid \<Longrightarrow> get_view vid' (put_view vid v s) = get_view vid' s"
  by (cases vid; cases vid') (simp_all add: get_view_def put_view_def)

lemma get_view_update [simp]:
  "get_view vid (s\<lparr>vocab := a\<rparr>) = get_view vid s"
  "get_view vid (s\<lparr>open_words := b\<rparr>) = get_view vid s"
  "get_view vid (s\<lparr>last_layout := c\<rparr>) = get_view vid s"
  "get_view vid (s\<lparr>horizontal_size_class := d\<rparr>) = get_view vid s"
  "get_view vid (s\<lparr>nav_stack := e\<rparr>) = get_view vid s"
  "get_view vid (s\<lparr>nav_frame := f\<rparr>) = get_view vid s"
  "get_view vid (s\<lparr>content_frame := g\<rparr>) = get_view vid s"
  "get_view vid (s\<lparr>selected_rows := h\<rparr>) = get_view vid s"
  "get_view vid (s\<lparr>table_calls := i\<rparr>) = get_view vid s"
  "get_view vid (s\<lparr>background := j\<rparr>) = get_view vid s"
  "get_view vid (s\<lparr>search_text := k\<rparr>) = get_view vid s"
  by (cases vid; simp add: get_view_def)+

lemma put_view_frame [simp]:
  "vocab (put_view vid v s) = vocab s"
  "open_words (put_view vid v s) = open_words s"
  "last_layout (put_view vid v s) = last_layout s"
  "horizontal_size_class (put_view vid v s) = horizontal_size_class s"
  "nav_stack (put_view vid v s) = nav_stack s"
  "self_frame (put_view vid v s) = self_frame s"
  "nav_frame (put_view vid v s) = nav_frame s"
  "content_frame (put_view vid v s) = content_frame s"
  "selected_rows (put_view vid v s) = selected_rows s"
  "table_calls (put_view vid v s) = table_calls s"
  "background (put_view vid v s) = background s"
  by (cases vid; simp add: put_view_def)+

lemma select_word_twice: "select_word ops vid (select_word ops vid s) = select_word ops vid s"
  by (simp add: select_word_def Let_def)

lemma select_word_frame [simp]:
  "vocab (select_word ops vid s) = vocab s"
  "open_words (select_word ops vid s) = open_words s"
  "last_layout (select_word ops vid s) = last_layout s"
  "horizontal_size_class (select_word ops vid s) = horizontal_size_class s"
  "nav_stack (select_word ops vid s) = nav_stack s"
  "self_frame (select_word ops vid s) = self_frame s"
  "nav_frame (select_word ops vid s) = nav_frame s"
  "content_frame (select_word ops vid s) = content_frame s"
  "background (select_word ops vid s) = background s"
  "get_view vid' (select_word ops vid s) = get_view vid' s"
  by (simp_all add: select_word_def Let_def)

lemma load_word_frame [simp]:
  "vocab (load_word ops vid word force s) = vocab s"
  "open_words (load_word ops vid word force s) = open_words s"
  "last_layout (load_word ops vid word force s) = last_layout s"
  "horizontal_size_class (load_word ops vid word force s) = horizontal_size_class s"
  "nav_stack (load_word ops vid word force s) = nav_stack s"
  "self_frame (load_word ops vid word force s) = self_frame s"
  "nav_frame (load_word ops vid word force s) = nav_frame s"
  "content_frame (load_word ops vid word force s) = content_frame s"
  by (simp_all add: load_word_def Let_def)

lemma load_word_shows [simp]:
  "word_text (get_view vid (load_word ops vid word force s)) = word"
  by (simp add: load_word_def Let_def switch_modes_def switch_textview_def switch_webview_def)

lemma load_word_other_view [simp]:
  "vid' \<noteq> vid \<Longrightarrow> get_view vid' (load_word ops vid word force s) = get_view vid' s"
  by (simp add: load_word_def Let_def)

lemma load_word_skip: "word_text (get_view vid s) = word \<Longrightarrow> load_word ops vid word False s = s"
  by (simp add: load_word_def)

section \<open>The open words\<close>

text \<open>
  Claim C10. After \<^verbatim>\<open>load_word_view(word)\<close> the list \<^verbatim>\<open>container.open_words\<close> is exactly
  \<^verbatim>\<open>[word]\<close>, whatever the size class and whatever the list held before, so it never holds
  more than one word; \<^verbatim>\<open>WordView.clear\<close> resets it to the empty list, which is also what
  \<^verbatim>\<open>AdaptiveView.__init__\<close> starts from.
\<close>

theorem open_words_singleton:
  "open_words (load_word_view ops word s) = [word]
   \<and> open_words (clear vid s) = []
   \<and> open_words (adaptive_view_init s) = []"
  by (simp add: load_word_view_def clear_def adaptive_view_init_def Let_def)

theorem open_words_singleton_witness:
  "open_words (load_word_view spec_ops ''banana'' (load_word_view spec_ops ''apple'' start_state))
     = [''banana'']
   \<and> open_words (clear Word_view (load_word_view spec_ops ''apple'' start_state)) = []
   \<and> open_words (adaptive_view_init start_state) = []"
  using open_words_singleton
    [of spec_ops "''banana''" "load_word_view spec_ops ''apple'' start_state" Word_view]
    open_words_singleton [of spec_ops "''apple''" start_state Word_view]
  by (simp add: adaptive_view_init_def)

lemma push_pop_view_frame [simp]:
  "vocab (push_view vid s) = vocab s"
  "open_words (push_view vid s) = open_words s"
  "last_layout (push_view vid s) = last_layout s"
  "horizontal_size_class (push_view vid s) = horizontal_size_class s"
  "get_view vid' (push_view vid s) = get_view vid' s"
  "vocab (pop_view s) = vocab s"
  "open_words (pop_view s) = open_words s"
  "last_layout (pop_view s) = last_layout s"
  "horizontal_size_class (pop_view s) = horizontal_size_class s"
  "get_view vid' (pop_view s) = get_view vid' s"
  by (simp_all add: push_view_def pop_view_def)

lemma push_open_words_frame [simp]:
  "open_words (push_open_words ops ws s) = open_words s"
  "last_layout (push_open_words ops ws s) = last_layout s"
  "horizontal_size_class (push_open_words ops ws s) = horizontal_size_class s"
  "get_view Word_view (push_open_words ops ws s) = get_view Word_view s"
  by (induction ws arbitrary: s; simp)+

lemma pop_open_words_frame [simp]:
  "open_words (pop_open_words ops ws s) = open_words s"
  "last_layout (pop_open_words ops ws s) = last_layout s"
  "horizontal_size_class (pop_open_words ops ws s) = horizontal_size_class s"
  "get_view Compact_word_view (pop_open_words ops ws s) = get_view Compact_word_view s"
  by (induction ws arbitrary: s; simp)+

lemma push_open_words_stack:
  "nav_stack (push_open_words ops ws s) = nav_stack s @ replicate (length ws) Compact_word_view"
  by (induction ws arbitrary: s) (simp_all add: push_view_def replicate_append_same)

lemma pop_open_words_stack:
  "nav_stack (pop_open_words ops ws s) = take (length (nav_stack s) - length ws) (nav_stack s)"
  by (induction ws arbitrary: s) (simp_all add: pop_view_def butlast_conv_take)

lemma push_open_words_shows:
  "ws \<noteq> [] \<Longrightarrow> word_text (get_view Compact_word_view (push_open_words ops ws s)) = last ws"
proof (induction ws arbitrary: s)
  case Nil
  then show ?case by simp
next
  case (Cons w ws)
  show ?case
  proof (cases "ws = []")
    case True
    then show ?thesis by simp
  next
    case False
    with Cons.IH show ?thesis by simp
  qed
qed

lemma pop_open_words_shows:
  "ws \<noteq> [] \<Longrightarrow> word_text (get_view Word_view (pop_open_words ops ws s)) = last ws"
proof (induction ws arbitrary: s)
  case Nil
  then show ?case by simp
next
  case (Cons w ws)
  show ?case
  proof (cases "ws = []")
    case True
    then show ?thesis by simp
  next
    case False
    with Cons.IH show ?thesis by simp
  qed
qed

lemma set_regular_layout [simp]:
  "last_layout (set_regular ops s) = Some REGULAR"
  "horizontal_size_class (set_regular ops s) = horizontal_size_class s"
  "open_words (set_regular ops s) = open_words s"
  by (simp_all add: set_regular_def Let_def)

lemma set_compact_layout [simp]:
  "last_layout (set_compact ops s) = Some COMPACT"
  "horizontal_size_class (set_compact ops s) = horizontal_size_class s"
  "open_words (set_compact ops s) = open_words s"
  by (simp_all add: set_compact_def Let_def)

lemma modes_differ [simp]: "COMPACT \<noteq> REGULAR" "REGULAR \<noteq> COMPACT"
  by (simp_all add: COMPACT_def REGULAR_def)

lemma layout_same_mode:
  "last_layout s = Some (horizontal_size_class s) \<Longrightarrow> layout ops s = s"
  by (simp add: layout_def Let_def)

lemma layout_applies:
  "horizontal_size_class s = COMPACT \<or> horizontal_size_class s = REGULAR \<Longrightarrow>
   last_layout (layout ops s) = Some (horizontal_size_class s)"
  by (auto simp add: layout_def Let_def)

lemma layout_size_class [simp]: "horizontal_size_class (layout ops s) = horizontal_size_class s"
  by (simp add: layout_def Let_def)

lemma layout_other_mode:
  "horizontal_size_class s \<noteq> COMPACT \<Longrightarrow> horizontal_size_class s \<noteq> REGULAR \<Longrightarrow> layout ops s = s"
  by (simp add: layout_def Let_def)

lemma layout_twice: "layout ops (layout ops s) = layout ops s"
proof (cases "horizontal_size_class s = COMPACT \<or> horizontal_size_class s = REGULAR")
  case True
  then have "last_layout (layout ops s) = Some (horizontal_size_class (layout ops s))"
    by (simp add: layout_applies)
  then show ?thesis by (rule layout_same_mode)
next
  case False
  then show ?thesis by (simp add: layout_other_mode)
qed

lemma size_class_update_same:
  "horizontal_size_class s = mode \<Longrightarrow> s\<lparr>horizontal_size_class := mode\<rparr> = s"
  by (cases s) simp

lemma layout_changed_twice:
  "layout_changed ops mode (layout_changed ops mode s) = layout_changed ops mode s"
proof -
  let ?t = "s\<lparr>horizontal_size_class := mode\<rparr>"
  have "horizontal_size_class (layout ops ?t) = mode"
    by (simp only: layout_size_class) simp
  then have "(layout ops ?t)\<lparr>horizontal_size_class := mode\<rparr> = layout ops ?t"
    by (rule size_class_update_same)
  then show ?thesis
    unfolding layout_changed_def by (simp only: layout_twice)
qed

lemma select_word_eq:
  "select_word ops vid s =
     (case select_target ops vid s of
        None \<Rightarrow> s
      | Some c \<Rightarrow>
          if selected_rows s \<noteq> [c]
          then s\<lparr>selected_rows := [c], table_calls := table_calls s @ [Select_rows [c]]\<rparr>
          else s)"
  unfolding select_word_def select_target_def Let_def by simp

lemma select_word_count: "select_count (select_word ops vid s) \<le> Suc (select_count s)"
  by (simp add: select_word_def select_count_def Let_def)

lemma select_word_same_selection:
  assumes "selected_rows (select_word ops vid s) = selected_rows s"
  shows "select_word ops vid s = s"
proof (cases "select_target ops vid s")
  case None
  then show ?thesis by (simp only: select_word_eq option.case)
next
  case (Some c)
  show ?thesis
  proof (cases "selected_rows s = [c]")
    case True
    with Some show ?thesis by (simp only: select_word_eq option.case) simp
  next
    case False
    with Some have "selected_rows (select_word ops vid s) = [c]"
      by (simp only: select_word_eq option.case) simp
    with assms False show ?thesis by simp
  qed
qed

section \<open>Layout notifications\<close>

text \<open>
  Claim C7. Two consecutive layout notifications of the same mode: the second changes
  nothing. \<^verbatim>\<open>layout\<close> compares the reported size class with \<^verbatim>\<open>last_layout\<close>, so a
  notification of the mode applied last only records the size class, and a notification of
  compact or regular leaves that mode as the one applied last.
\<close>

theorem layout_duplicate_noop:
  "layout_changed ops mode (layout_changed ops mode s) = layout_changed ops mode s
   \<and> (last_layout s = Some mode \<longrightarrow> layout_changed ops mode s = s\<lparr>horizontal_size_class := mode\<rparr>)
   \<and> (mode = COMPACT \<or> mode = REGULAR \<longrightarrow> last_layout (layout_changed ops mode s) = Some mode)"
proof (intro conjI impI)
  show "layout_changed ops mode (layout_changed ops mode s) = layout_changed ops mode s"
    by (rule layout_changed_twice)
next
  assume "last_layout s = Some mode"
  then show "layout_changed ops mode s = s\<lparr>horizontal_size_class := mode\<rparr>"
    unfolding layout_changed_def by (intro layout_same_mode) simp
next
  assume "mode = COMPACT \<or> mode = REGULAR"
  then show "last_layout (layout_changed ops mode s) = Some mode"
    using layout_applies [of "s\<lparr>horizontal_size_class := mode\<rparr>" ops]
    unfolding layout_changed_def by simp
qed

text \<open>
  The theorem at the state in which \<^verbatim>\<open>banana\<close> is open in compact size: the first regular
  notification applies the regular layout, the second one is the no-op.
\<close>

theorem layout_duplicate_noop_witness:
  "last_layout (layout_changed spec_ops REGULAR banana_state) = Some REGULAR
   \<and> layout_changed spec_ops REGULAR (layout_changed spec_ops REGULAR banana_state)
       = layout_changed spec_ops REGULAR banana_state
   \<and> layout_changed spec_ops REGULAR (layout_changed spec_ops REGULAR banana_state)
       = (layout_changed spec_ops REGULAR banana_state)\<lparr>horizontal_size_class := REGULAR\<rparr>"
proof -
  have applied: "last_layout (layout_changed spec_ops REGULAR banana_state) = Some REGULAR"
    using layout_duplicate_noop [of spec_ops REGULAR banana_state] by blast
  moreover have "layout_changed spec_ops REGULAR (layout_changed spec_ops REGULAR banana_state)
      = layout_changed spec_ops REGULAR banana_state"
    using layout_duplicate_noop [of spec_ops REGULAR banana_state] by blast
  moreover have "layout_changed spec_ops REGULAR (layout_changed spec_ops REGULAR banana_state)
      = (layout_changed spec_ops REGULAR banana_state)\<lparr>horizontal_size_class := REGULAR\<rparr>"
    using layout_duplicate_noop [of spec_ops REGULAR "layout_changed spec_ops REGULAR banana_state"]
      applied by blast
  ultimately show ?thesis by blast
qed

section \<open>Selecting the displayed word\<close>

text \<open>
  Claim C4. Running \<^verbatim>\<open>select_word\<close> twice in a row, with nothing changed in between, gives
  the state of running it once, and the two runs together assign \<^verbatim>\<open>selected_rows\<close> at
  most once. The assignment is skipped when it would assign what is selected already: a run
  that leaves the selection as it was has made no call at all.
\<close>

theorem select_word_idempotent:
  "select_word ops vid (select_word ops vid s) = select_word ops vid s
   \<and> select_count (select_word ops vid (select_word ops vid s)) \<le> Suc (select_count s)
   \<and> (selected_rows (select_word ops vid s) = selected_rows s \<longrightarrow> select_word ops vid s = s)"
proof (intro conjI impI)
  show "select_word ops vid (select_word ops vid s) = select_word ops vid s"
    by (rule select_word_twice)
  then show "select_count (select_word ops vid (select_word ops vid s)) \<le> Suc (select_count s)"
    by (simp only: select_word_count)
next
  assume "selected_rows (select_word ops vid s) = selected_rows s"
  then show "select_word ops vid s = s"
    by (rule select_word_same_selection)
qed

text \<open>
  The theorem where \<^verbatim>\<open>banana\<close> is open and selected at section 0, row 0: one more run of
  \<^verbatim>\<open>select_word\<close> makes no call.
\<close>

theorem select_word_idempotent_witness:
  "selected_rows banana_state = [(0, 0)]
   \<and> selected_rows (select_word spec_ops Compact_word_view banana_state) = selected_rows banana_state
   \<and> select_word spec_ops Compact_word_view banana_state = banana_state
   \<and> select_count banana_state = 1"
proof -
  have sel: "selected_rows banana_state = [(0, 0)]"
    by code_simp
  have same: "selected_rows (select_word spec_ops Compact_word_view banana_state)
      = selected_rows banana_state"
    by code_simp
  have count: "select_count banana_state = 1"
    by code_simp
  from select_word_idempotent [of spec_ops Compact_word_view banana_state] same
  have "select_word spec_ops Compact_word_view banana_state = banana_state"
    by blast
  with sel same count show ?thesis by blast
qed

lemma get_view_simps: "get_view Word_view s = word_view s" "get_view Compact_word_view s = compact_word_view s"
  by (simp_all add: get_view_def)

lemma layout_to_regular:
  "horizontal_size_class s = REGULAR \<Longrightarrow> last_layout s \<noteq> Some REGULAR \<Longrightarrow>
   layout ops s = set_regular ops s"
  by (simp add: layout_def Let_def)

lemma layout_to_compact:
  "horizontal_size_class s = COMPACT \<Longrightarrow> last_layout s \<noteq> Some COMPACT \<Longrightarrow>
   layout ops s = set_compact ops s"
  by (simp add: layout_def Let_def)

lemma set_regular_from_compact:
  assumes "last_layout s = Some COMPACT"
  shows "nav_stack (set_regular ops s) = take (length (nav_stack s) - length (open_words s)) (nav_stack s)"
    and "get_view Compact_word_view (set_regular ops s) = get_view Compact_word_view s"
    and "open_words s \<noteq> [] \<Longrightarrow> word_text (get_view Word_view (set_regular ops s)) = last (open_words s)"
  using assms by (simp_all add: set_regular_def Let_def pop_open_words_stack pop_open_words_shows)

lemma set_compact_pushes:
  shows "nav_stack (set_compact ops s) = nav_stack s @ replicate (length (open_words s)) Compact_word_view"
    and "get_view Word_view (set_compact ops s) = get_view Word_view s"
    and "open_words s \<noteq> [] \<Longrightarrow> word_text (get_view Compact_word_view (set_compact ops s)) = last (open_words s)"
  by (simp_all add: set_compact_def Let_def push_open_words_stack push_open_words_shows)

lemma open_words_one: "open_words (load_word_view ops word s) = [word]"
  by (simp add: load_word_view_def Let_def)

lemma load_word_view_compact:
  assumes "horizontal_size_class s = COMPACT"
  shows "nav_stack (load_word_view ops word s) = nav_stack s @ [Compact_word_view]"
    and "word_text (get_view Compact_word_view (load_word_view ops word s)) = word"
    and "last_layout (load_word_view ops word s) = last_layout s"
    and "horizontal_size_class (load_word_view ops word s) = COMPACT"
  using assms by (simp_all add: load_word_view_def Let_def push_view_def)

lemma load_word_view_regular:
  assumes "horizontal_size_class s = REGULAR"
  shows "load_word_view ops word s = (load_word ops Word_view word False s)\<lparr>open_words := [word]\<rparr>"
    and "nav_stack (load_word_view ops word s) = nav_stack s"
    and "word_text (get_view Word_view (load_word_view ops word s)) = word"
  using assms by (simp_all add: load_word_view_def Let_def)

lemma to_regular:
  assumes "last_layout s = Some COMPACT"
  shows "layout_changed ops REGULAR s = set_regular ops (s\<lparr>horizontal_size_class := REGULAR\<rparr>)"
  unfolding layout_changed_def using assms by (intro layout_to_regular) simp_all

lemma to_compact:
  assumes "last_layout s = Some REGULAR"
  shows "layout_changed ops COMPACT s = set_compact ops (s\<lparr>horizontal_size_class := COMPACT\<rparr>)"
  unfolding layout_changed_def using assms by (intro layout_to_compact) simp_all

lemma regular_after_compact:
  assumes "last_layout s = Some COMPACT"
  shows "nav_stack (layout_changed ops REGULAR s)
           = take (length (nav_stack s) - length (open_words s)) (nav_stack s)"
    and "get_view Compact_word_view (layout_changed ops REGULAR s) = get_view Compact_word_view s"
    and "open_words s \<noteq> [] \<Longrightarrow>
           word_text (get_view Word_view (layout_changed ops REGULAR s)) = last (open_words s)"
    and "open_words (layout_changed ops REGULAR s) = open_words s"
    and "last_layout (layout_changed ops REGULAR s) = Some REGULAR"
  using assms set_regular_from_compact [where s = "s\<lparr>horizontal_size_class := REGULAR\<rparr>" and ops = ops]
  by (simp_all add: to_regular)

lemma compact_after_regular:
  assumes "last_layout s = Some REGULAR"
  shows "nav_stack (layout_changed ops COMPACT s)
           = nav_stack s @ replicate (length (open_words s)) Compact_word_view"
    and "open_words s \<noteq> [] \<Longrightarrow>
           word_text (get_view Compact_word_view (layout_changed ops COMPACT s)) = last (open_words s)"
    and "open_words (layout_changed ops COMPACT s) = open_words s"
  using assms set_compact_pushes [where s = "s\<lparr>horizontal_size_class := COMPACT\<rparr>" and ops = ops]
  by (simp_all add: to_compact)


lemma load_word_reloads:
  assumes "word_text (get_view vid s) \<noteq> word \<or> force"
  shows "textview_text (get_view vid (load_word ops vid word force s)) = get_notes ops (vocab s) word"
    and "blank_hidden (get_view vid (load_word ops vid word force s))"
    and "background (load_word ops vid word force s) = background s @ [(vid, word)]"
  using assms
  by (auto simp add: load_word_def Let_def switch_modes_def switch_textview_def switch_webview_def)


section \<open>Compact to regular and back\<close>

text \<open>
  Claim C5. A word is opened from the list in compact size (the compact layout is applied
  and the navigation view holds only its root). A layout notification of regular then shows
  the word in the word view of the content column and pops the screen that was pushed; a
  notification of compact after that leaves exactly one screen pushed, the compact word view
  showing the word, and \<^verbatim>\<open>open_words\<close> is the one word throughout. In general the
  change from compact to regular pops one screen for each open word and leaves the last of
  them displayed.
\<close>

theorem layout_round_trip:
  "(horizontal_size_class s = COMPACT \<and> last_layout s = Some COMPACT \<and> nav_stack s = [] \<longrightarrow>
      word_text (word_view (layout_changed ops REGULAR (load_word_view ops word s))) = word
      \<and> nav_stack (layout_changed ops REGULAR (load_word_view ops word s)) = []
      \<and> open_words (layout_changed ops REGULAR (load_word_view ops word s)) = [word]
      \<and> nav_stack (layout_changed ops COMPACT
           (layout_changed ops REGULAR (load_word_view ops word s))) = [Compact_word_view]
      \<and> word_text (compact_word_view (layout_changed ops COMPACT
           (layout_changed ops REGULAR (load_word_view ops word s)))) = word
      \<and> open_words (layout_changed ops COMPACT
           (layout_changed ops REGULAR (load_word_view ops word s))) = [word])
   \<and> (last_layout s = Some COMPACT \<and> open_words s \<noteq> [] \<longrightarrow>
        word_text (word_view (layout_changed ops REGULAR s)) = last (open_words s)
        \<and> nav_stack (layout_changed ops REGULAR s)
            = take (length (nav_stack s) - length (open_words s)) (nav_stack s))"
proof (intro conjI impI)
  assume h: "horizontal_size_class s = COMPACT \<and> last_layout s = Some COMPACT \<and> nav_stack s = []"
  let ?s1 = "load_word_view ops word s"
  let ?s2 = "layout_changed ops REGULAR ?s1"
  let ?s3 = "layout_changed ops COMPACT ?s2"
  have s1: "nav_stack ?s1 = [Compact_word_view]" "last_layout ?s1 = Some COMPACT"
    "open_words ?s1 = [word]" "word_text (get_view Compact_word_view ?s1) = word"
    using h load_word_view_compact [where s = s and ops = ops and word = word] open_words_one [where s = s and ops = ops and word = word] by simp_all
  have s2: "nav_stack ?s2 = []" "open_words ?s2 = [word]" "last_layout ?s2 = Some REGULAR"
    "word_text (get_view Word_view ?s2) = word" "word_text (get_view Compact_word_view ?s2) = word"
    using regular_after_compact [where s = ?s1 and ops = ops] s1 by simp_all
  have s3: "nav_stack ?s3 = [Compact_word_view]" "open_words ?s3 = [word]"
    "word_text (get_view Compact_word_view ?s3) = word"
    using compact_after_regular [where s = ?s2 and ops = ops] s2 by simp_all
  show "word_text (word_view ?s2) = word" using s2 by (simp add: get_view_simps)
  show "nav_stack ?s2 = []" by (rule s2)
  show "open_words ?s2 = [word]" by (rule s2)
  show "nav_stack ?s3 = [Compact_word_view]" by (rule s3)
  show "word_text (compact_word_view ?s3) = word" using s3 by (simp add: get_view_simps)
  show "open_words ?s3 = [word]" by (rule s3)
next
  assume h: "last_layout s = Some COMPACT \<and> open_words s \<noteq> []"
  then show "word_text (word_view (layout_changed ops REGULAR s)) = last (open_words s)"
    using regular_after_compact(3) [where s = s and ops = ops] by (simp add: get_view_simps)
next
  assume h: "last_layout s = Some COMPACT \<and> open_words s \<noteq> []"
  then show "nav_stack (layout_changed ops REGULAR s)
            = take (length (nav_stack s) - length (open_words s)) (nav_stack s)"
    using regular_after_compact(1) [where s = s and ops = ops] by simp
qed

theorem layout_round_trip_witness:
  "horizontal_size_class compact_fruit_state = COMPACT
   \<and> last_layout compact_fruit_state = Some COMPACT
   \<and> nav_stack compact_fruit_state = []
   \<and> open_words banana_state = [''banana'']
   \<and> word_text (word_view (layout_changed spec_ops REGULAR banana_state)) = ''banana''
   \<and> nav_stack (layout_changed spec_ops REGULAR banana_state) = []
   \<and> nav_stack (layout_changed spec_ops COMPACT (layout_changed spec_ops REGULAR banana_state))
       = [Compact_word_view]
   \<and> word_text (compact_word_view
         (layout_changed spec_ops COMPACT (layout_changed spec_ops REGULAR banana_state)))
       = ''banana''"
proof -
  have h: "horizontal_size_class compact_fruit_state = COMPACT
      \<and> last_layout compact_fruit_state = Some COMPACT \<and> nav_stack compact_fruit_state = []"
    by code_simp
  have k: "last_layout banana_state = Some COMPACT \<and> open_words banana_state \<noteq> []"
    by code_simp
  have o: "open_words banana_state = [''banana'']"
    by code_simp
  from layout_round_trip [where s = compact_fruit_state and ops = spec_ops and word = "''banana''"] h
  have "nav_stack (layout_changed spec_ops REGULAR banana_state) = []
      \<and> nav_stack (layout_changed spec_ops COMPACT (layout_changed spec_ops REGULAR banana_state))
          = [Compact_word_view]
      \<and> word_text (compact_word_view
            (layout_changed spec_ops COMPACT (layout_changed spec_ops REGULAR banana_state)))
          = ''banana''"
    unfolding banana_state_def by blast
  moreover from layout_round_trip [where s = banana_state and ops = spec_ops] k o
  have "word_text (word_view (layout_changed spec_ops REGULAR banana_state)) = ''banana''"
    by simp
  ultimately show ?thesis using h o by blast
qed


section \<open>Opening a word in either size\<close>

text \<open>
  Claim C8. In regular size \<^verbatim>\<open>load_word_view\<close> loads the word into the word view of the
  content column, pushes nothing and makes \<^verbatim>\<open>open_words\<close> the one word. \<^verbatim>\<open>load_word\<close>
  returns at once, changing nothing, when the view shows that word already and \<^verbatim>\<open>force\<close>
  is not set; otherwise it reloads: the notes of the word are put in the text view, the
  blank placeholder is hidden and a definition fetch is queued. In compact size
  \<^verbatim>\<open>load_word_view\<close> pushes the compact word view, showing the word, on the navigation
  view.
\<close>

theorem load_word_view_modes:
  "(horizontal_size_class s = REGULAR \<longrightarrow>
      load_word_view ops word s = (load_word ops Word_view word False s)\<lparr>open_words := [word]\<rparr>
      \<and> word_text (word_view (load_word_view ops word s)) = word
      \<and> nav_stack (load_word_view ops word s) = nav_stack s)
   \<and> (word_text (get_view vid s) = word \<longrightarrow> load_word ops vid word False s = s)
   \<and> (word_text (get_view vid s) \<noteq> word \<or> force \<longrightarrow>
        textview_text (get_view vid (load_word ops vid word force s)) = get_notes ops (vocab s) word
        \<and> blank_hidden (get_view vid (load_word ops vid word force s))
        \<and> background (load_word ops vid word force s) = background s @ [(vid, word)])
   \<and> (horizontal_size_class s = COMPACT \<longrightarrow>
        nav_stack (load_word_view ops word s) = nav_stack s @ [Compact_word_view]
        \<and> word_text (compact_word_view (load_word_view ops word s)) = word)"
proof (intro conjI impI)
  assume r: "horizontal_size_class s = REGULAR"
  then show "load_word_view ops word s = (load_word ops Word_view word False s)\<lparr>open_words := [word]\<rparr>"
    by (rule load_word_view_regular)
  from r show "word_text (word_view (load_word_view ops word s)) = word"
    using load_word_view_regular(3) [where s = s and ops = ops and word = word]
    by (simp add: get_view_simps)
  from r show "nav_stack (load_word_view ops word s) = nav_stack s"
    by (rule load_word_view_regular)
next
  assume "word_text (get_view vid s) = word"
  then show "load_word ops vid word False s = s" by (rule load_word_skip)
next
  assume a: "word_text (get_view vid s) \<noteq> word \<or> force"
  then show "textview_text (get_view vid (load_word ops vid word force s)) = get_notes ops (vocab s) word"
    by (rule load_word_reloads)
  from a show "blank_hidden (get_view vid (load_word ops vid word force s))"
    by (rule load_word_reloads)
  from a show "background (load_word ops vid word force s) = background s @ [(vid, word)]"
    by (rule load_word_reloads)
next
  assume c: "horizontal_size_class s = COMPACT"
  then show "nav_stack (load_word_view ops word s) = nav_stack s @ [Compact_word_view]"
    by (rule load_word_view_compact)
  from c show "word_text (compact_word_view (load_word_view ops word s)) = word"
    using load_word_view_compact(2) [where s = s and ops = ops and word = word]
    by (simp add: get_view_simps)
qed

theorem load_word_view_modes_witness:
  "horizontal_size_class regular_fruit_state = REGULAR
   \<and> word_text (word_view (load_word_view spec_ops ''banana'' regular_fruit_state)) = ''banana''
   \<and> nav_stack (load_word_view spec_ops ''banana'' regular_fruit_state) = []
   \<and> textview_text (get_view Word_view
         (load_word spec_ops Word_view ''banana'' False regular_fruit_state)) = ''tasty''
   \<and> background (load_word spec_ops Word_view ''banana'' False regular_fruit_state)
       = [(Word_view, ''banana'')]
   \<and> word_text (get_view Compact_word_view banana_state) = ''banana''
   \<and> load_word spec_ops Compact_word_view ''banana'' False banana_state = banana_state
   \<and> horizontal_size_class compact_fruit_state = COMPACT
   \<and> nav_stack (load_word_view spec_ops ''apple'' compact_fruit_state) = [Compact_word_view]"
proof -
  have r: "horizontal_size_class regular_fruit_state = REGULAR"
    by code_simp
  have other: "word_text (get_view Word_view regular_fruit_state) \<noteq> ''banana'' \<or> False"
    by code_simp
  have facts: "nav_stack regular_fruit_state = []" "background regular_fruit_state = []"
    "get_notes spec_ops (vocab regular_fruit_state) ''banana'' = ''tasty''"
    "nav_stack compact_fruit_state = []"
    by code_simp+
  have shown: "word_text (get_view Compact_word_view banana_state) = ''banana''"
    by code_simp
  have c: "horizontal_size_class compact_fruit_state = COMPACT"
    by code_simp
  from load_word_view_modes
    [where s = regular_fruit_state and ops = spec_ops and word = "''banana''"
       and vid = Word_view and force = False] r other
  have "word_text (word_view (load_word_view spec_ops ''banana'' regular_fruit_state)) = ''banana''
     \<and> nav_stack (load_word_view spec_ops ''banana'' regular_fruit_state)
         = nav_stack regular_fruit_state
     \<and> textview_text (get_view Word_view
         (load_word spec_ops Word_view ''banana'' False regular_fruit_state))
         = get_notes spec_ops (vocab regular_fruit_state) ''banana''
     \<and> background (load_word spec_ops Word_view ''banana'' False regular_fruit_state)
         = background regular_fruit_state @ [(Word_view, ''banana'')]"
    by blast
  then have a: "word_text (word_view (load_word_view spec_ops ''banana'' regular_fruit_state)) = ''banana''
     \<and> nav_stack (load_word_view spec_ops ''banana'' regular_fruit_state) = []
     \<and> textview_text (get_view Word_view
         (load_word spec_ops Word_view ''banana'' False regular_fruit_state)) = ''tasty''
     \<and> background (load_word spec_ops Word_view ''banana'' False regular_fruit_state)
         = [(Word_view, ''banana'')]"
    by (simp only: facts append_Nil)
  from load_word_view_modes
    [where s = banana_state and ops = spec_ops and word = "''banana''"
       and vid = Compact_word_view] shown
  have b: "load_word spec_ops Compact_word_view ''banana'' False banana_state = banana_state"
    by blast
  from load_word_view_modes
    [where s = compact_fruit_state and ops = spec_ops and word = "''apple''"] c
  have "nav_stack (load_word_view spec_ops ''apple'' compact_fruit_state)
      = nav_stack compact_fruit_state @ [Compact_word_view]"
    by blast
  then have d: "nav_stack (load_word_view spec_ops ''apple'' compact_fruit_state) = [Compact_word_view]"
    by (simp only: facts append_Nil)
  from r a shown b c d show ?thesis by blast
qed

section \<open>Saving notes\<close>

lemma spec_ops_simps [simp]:
  "get_notes spec_ops = spec_get_notes"
  "list_words spec_ops = spec_list_words"
  "query spec_ops = spec_query"
  "set_query spec_ops = spec_set_query"
  "set_word spec_ops = spec_set_word"
  "del_dup_word spec_ops = spec_del_dup_word"
  "delete_multiple spec_ops = spec_delete_multiple"
  by (simp_all add: spec_ops_def)






lemma textview_calls:
  "table_calls (textview_did_end_editing ops vid s)
     = table_calls s
       @ (case fst (set_word ops (word_text (get_view vid s)) (textview_text (get_view vid s)) (vocab s)) of
            None \<Rightarrow> [] | Some r \<Rightarrow> [Insert_rows [r]])
       @ (case fst (del_dup_word ops (word_text (get_view vid s)) (textview_text (get_view vid s))
            (snd (set_word ops (word_text (get_view vid s)) (textview_text (get_view vid s)) (vocab s)))) of
            None \<Rightarrow> [] | Some r \<Rightarrow> [Delete_rows [r]])"
  by (simp add: textview_did_end_editing_def Let_def split: prod.split option.split)









lemma set_word_query [simp]:
  "query_text (store (snd (spec_set_word word notes v))) = query_text (store v)"
  by (simp add: spec_set_word_def Let_def)






section \<open>The definition fetch\<close>

lemma load_definition_view:
  "html_definition (get_view vid (load_definition ops vid word d s)) = Definition_html d"
  "word_text (get_view vid (load_definition ops vid word d s)) = word_text (get_view vid s)"
  by (simp_all add: load_definition_def Let_def split: prod.split option.split)

lemma run_background_view:
  assumes "background s = (vid, word) # rest"
  shows "html_definition (get_view vid (run_background ops d s)) = Definition_html d"
    and "word_text (get_view vid (run_background ops d s)) = word_text (get_view vid s)"
    and "background (run_background ops d s) = rest"
  using assms
  by (simp_all add: run_background_def load_definition_view)
    (simp add: load_definition_def Let_def split: prod.split option.split)

text \<open>
  The claim that a fetched definition is applied only while the view still displays the
  word it was fetched for fails. \<^verbatim>\<open>plum\<close> is opened and then \<^verbatim>\<open>pear\<close>; both fetches are
  queued and the view shows \<^verbatim>\<open>pear\<close> with the loading page. When the fetch for
  \<^verbatim>\<open>plum\<close> runs, the view still shows \<^verbatim>\<open>pear\<close> and its web view is given the
  definition of \<^verbatim>\<open>plum\<close>.
\<close>

theorem stale_definition_counterexample:
  "background moved_on_state = [(Word_view, ''plum''), (Word_view, ''pear'')]
   \<and> word_text (word_view moved_on_state) = ''pear''
   \<and> html_definition (word_view moved_on_state) = Loading_html
   \<and> word_text (word_view (run_background spec_ops plum_definition moved_on_state)) = ''pear''
   \<and> html_definition (word_view (run_background spec_ops plum_definition moved_on_state))
       = Definition_html plum_definition"
  by code_simp

text \<open>
  Claim C2, amended. When the fetch that a word view issued for a word completes,
  \<^verbatim>\<open>load_definition\<close> loads the rendered result into the web view of that word view
  whatever word the view displays at that moment: the displayed word is not compared and is
  not changed, and no result is discarded. This holds for the body of \<^verbatim>\<open>load_definition\<close>
  and for the background thread running the oldest queued call.
\<close>

theorem load_definition_unconditional:
  "html_definition (get_view vid (load_definition ops vid word d s)) = Definition_html d
   \<and> word_text (get_view vid (load_definition ops vid word d s)) = word_text (get_view vid s)
   \<and> (background s = (vid, word) # rest \<longrightarrow>
        html_definition (get_view vid (run_background ops d s)) = Definition_html d
        \<and> word_text (get_view vid (run_background ops d s)) = word_text (get_view vid s)
        \<and> background (run_background ops d s) = rest)"
proof (intro conjI impI)
  show "html_definition (get_view vid (load_definition ops vid word d s)) = Definition_html d"
    by (rule load_definition_view)
  show "word_text (get_view vid (load_definition ops vid word d s)) = word_text (get_view vid s)"
    by (rule load_definition_view)
next
  assume b: "background s = (vid, word) # rest"
  then show "html_definition (get_view vid (run_background ops d s)) = Definition_html d"
    by (rule run_background_view)
  from b show "word_text (get_view vid (run_background ops d s)) = word_text (get_view vid s)"
    by (rule run_background_view)
  from b show "background (run_background ops d s) = rest"
    by (rule run_background_view)
qed

theorem load_definition_unconditional_witness:
  "background moved_on_state = (Word_view, ''plum'') # [(Word_view, ''pear'')]
   \<and> html_definition (get_view Word_view (run_background spec_ops plum_definition moved_on_state))
       = Definition_html plum_definition
   \<and> word_text (get_view Word_view (run_background spec_ops plum_definition moved_on_state)) = ''pear''
   \<and> background (run_background spec_ops plum_definition moved_on_state) = [(Word_view, ''pear'')]"
proof -
  have b: "background moved_on_state = (Word_view, ''plum'') # [(Word_view, ''pear'')]"
    by code_simp
  have w: "word_text (get_view Word_view moved_on_state) = ''pear''"
    by code_simp
  from load_definition_unconditional
    [where s = moved_on_state and vid = Word_view and word = "''plum''"
       and rest = "[(Word_view, ''pear'')]" and ops = spec_ops and d = plum_definition] b
  have "html_definition (get_view Word_view (run_background spec_ops plum_definition moved_on_state))
       = Definition_html plum_definition
     \<and> word_text (get_view Word_view (run_background spec_ops plum_definition moved_on_state))
       = word_text (get_view Word_view moved_on_state)
     \<and> background (run_background spec_ops plum_definition moved_on_state) = [(Word_view, ''pear'')]"
    by blast
  with b w show ?thesis by simp
qed

section \<open>The selection when the word does not resolve\<close>

lemma select_target_set:
  "select_target ops vid s = Some c \<Longrightarrow> selected_rows (select_word ops vid s) = [c]"
  by (simp add: select_word_eq)

lemma select_target_none:
  "select_target ops vid s = None \<Longrightarrow> select_word ops vid s = s"
  by (simp add: select_word_eq)

lemma load_word_ends_with_select:
  assumes "word_text (get_view vid s) \<noteq> word \<or> force"
  shows "select_word ops vid (load_word ops vid word force s) = load_word ops vid word force s"
proof -
  from assms obtain t where "load_word ops vid word force s = select_word ops vid t"
    by (auto simp add: load_word_def Let_def)
  then show ?thesis by (simp only: select_word_twice)
qed

text \<open>
  The claim that the selection is cleared when the displayed word does not resolve fails.
  \<^verbatim>\<open>banana\<close> is open and selected at section 0, row 0; the query \<^verbatim>\<open>ap\<close> filters it out
  of the table, so it has no coordinate. \<^verbatim>\<open>select_word\<close> then leaves row 0 of section 0
  selected.
\<close>

theorem selection_not_cleared_counterexample:
  "word_text (compact_word_view filtered_banana_state) = ''banana''
   \<and> query spec_ops (vocab filtered_banana_state) = ''ap''
   \<and> coordinate_of (vocab filtered_banana_state) ''banana'' = None
   \<and> selected_rows filtered_banana_state = [(0, 0)]
   \<and> selected_rows (select_word spec_ops Compact_word_view filtered_banana_state) = [(0, 0)]"
  by code_simp

text \<open>
  Claim C3, amended. \<^verbatim>\<open>select_word\<close> looks the displayed word up in
  \<^verbatim>\<open>vocab.list_words(section)\<close>, where the section is 0 if the text view has notes and 1
  if not. If the word is in that list, the selected rows of the table become the single
  coordinate made of that section, plus one while a query is active, and the index of the
  word in the list. If the word is not in the list, \<^verbatim>\<open>select_word\<close> changes nothing: the
  selection is kept, not cleared. Every \<^verbatim>\<open>load_word\<close> that is not skipped ends with
  \<^verbatim>\<open>select_word\<close>, so the selection is in step with the view right after it.
\<close>

theorem select_word_sets_or_keeps:
  "(word_text (get_view vid s)
      \<in> set (list_words ops (vocab s) (if textview_text (get_view vid s) \<noteq> [] then 0 else 1)) \<longrightarrow>
      selected_rows (select_word ops vid s)
        = [((if textview_text (get_view vid s) \<noteq> [] then 0 else 1)
              + (if query ops (vocab s) \<noteq> [] then 1 else 0),
            index_of (list_words ops (vocab s) (if textview_text (get_view vid s) \<noteq> [] then 0 else 1))
              (word_text (get_view vid s)))])
   \<and> (word_text (get_view vid s)
      \<notin> set (list_words ops (vocab s) (if textview_text (get_view vid s) \<noteq> [] then 0 else 1)) \<longrightarrow>
      select_word ops vid s = s)
   \<and> (word_text (get_view vid s) \<noteq> word \<or> force \<longrightarrow>
      select_word ops vid (load_word ops vid word force s) = load_word ops vid word force s)"
proof (intro conjI impI)
  assume "word_text (get_view vid s)
      \<in> set (list_words ops (vocab s) (if textview_text (get_view vid s) \<noteq> [] then 0 else 1))"
  then have "select_target ops vid s
      = Some ((if textview_text (get_view vid s) \<noteq> [] then 0 else 1)
              + (if query ops (vocab s) \<noteq> [] then 1 else 0),
            index_of (list_words ops (vocab s) (if textview_text (get_view vid s) \<noteq> [] then 0 else 1))
              (word_text (get_view vid s)))"
    by (simp add: select_target_def Let_def)
  then show "selected_rows (select_word ops vid s)
        = [((if textview_text (get_view vid s) \<noteq> [] then 0 else 1)
              + (if query ops (vocab s) \<noteq> [] then 1 else 0),
            index_of (list_words ops (vocab s) (if textview_text (get_view vid s) \<noteq> [] then 0 else 1))
              (word_text (get_view vid s)))]"
    by (rule select_target_set)
next
  assume "word_text (get_view vid s)
      \<notin> set (list_words ops (vocab s) (if textview_text (get_view vid s) \<noteq> [] then 0 else 1))"
  then have "select_target ops vid s = None"
    by (simp add: select_target_def Let_def)
  then show "select_word ops vid s = s"
    by (rule select_target_none)
next
  assume "word_text (get_view vid s) \<noteq> word \<or> force"
  then show "select_word ops vid (load_word ops vid word force s) = load_word ops vid word force s"
    by (rule load_word_ends_with_select)
qed

theorem select_word_sets_or_keeps_witness:
  "word_text (get_view Compact_word_view compact_fruit_state) \<noteq> ''banana''
   \<and> selected_rows (load_word spec_ops Compact_word_view ''banana'' False compact_fruit_state) = [(0, 0)]
   \<and> select_word spec_ops Compact_word_view
        (load_word spec_ops Compact_word_view ''banana'' False compact_fruit_state)
       = load_word spec_ops Compact_word_view ''banana'' False compact_fruit_state
   \<and> ''banana'' \<notin> set (list_words spec_ops (vocab filtered_banana_state) 0)
   \<and> select_word spec_ops Compact_word_view filtered_banana_state = filtered_banana_state
   \<and> ''apple'' \<in> set (list_words spec_ops (vocab filtered_banana_state) 1)
   \<and> selected_rows (select_word spec_ops Compact_word_view
        (put_view Compact_word_view
           ((compact_word_view filtered_banana_state)\<lparr>word_text := ''apple'', textview_text := []\<rparr>)
           filtered_banana_state)) = [(2, 0)]"
proof -
  let ?t = "put_view Compact_word_view
           ((compact_word_view filtered_banana_state)\<lparr>word_text := ''apple'', textview_text := []\<rparr>)
           filtered_banana_state"
  have other: "word_text (get_view Compact_word_view compact_fruit_state) \<noteq> ''banana''"
    by code_simp
  have sel: "selected_rows (load_word spec_ops Compact_word_view ''banana'' False compact_fruit_state)
      = [(0, 0)]"
    by code_simp
  have out: "word_text (get_view Compact_word_view filtered_banana_state)
      \<notin> set (list_words spec_ops (vocab filtered_banana_state)
           (if textview_text (get_view Compact_word_view filtered_banana_state) \<noteq> [] then 0 else 1))"
    by code_simp
  have out': "''banana'' \<notin> set (list_words spec_ops (vocab filtered_banana_state) 0)"
    by code_simp
  have inside: "word_text (get_view Compact_word_view ?t)
      \<in> set (list_words spec_ops (vocab ?t)
           (if textview_text (get_view Compact_word_view ?t) \<noteq> [] then 0 else 1))"
    by code_simp
  have inside': "''apple'' \<in> set (list_words spec_ops (vocab filtered_banana_state) 1)"
    by code_simp
  have target: "[((if textview_text (get_view Compact_word_view ?t) \<noteq> [] then 0 else 1)
              + (if query spec_ops (vocab ?t) \<noteq> [] then 1 else 0),
            index_of (list_words spec_ops (vocab ?t)
                (if textview_text (get_view Compact_word_view ?t) \<noteq> [] then 0 else 1))
              (word_text (get_view Compact_word_view ?t)))] = [(2::nat, 0::nat)]"
    by code_simp
  from select_word_sets_or_keeps
    [where s = compact_fruit_state and vid = Compact_word_view and ops = spec_ops
       and word = "''banana''" and force = False] other
  have a: "select_word spec_ops Compact_word_view
        (load_word spec_ops Compact_word_view ''banana'' False compact_fruit_state)
       = load_word spec_ops Compact_word_view ''banana'' False compact_fruit_state"
    by blast
  from select_word_sets_or_keeps
    [where s = filtered_banana_state and vid = Compact_word_view and ops = spec_ops] out
  have b: "select_word spec_ops Compact_word_view filtered_banana_state = filtered_banana_state"
    by blast
  from select_word_sets_or_keeps [where s = ?t and vid = Compact_word_view and ops = spec_ops] inside
  have "selected_rows (select_word spec_ops Compact_word_view ?t)
      = [((if textview_text (get_view Compact_word_view ?t) \<noteq> [] then 0 else 1)
              + (if query spec_ops (vocab ?t) \<noteq> [] then 1 else 0),
            index_of (list_words spec_ops (vocab ?t)
                (if textview_text (get_view Compact_word_view ?t) \<noteq> [] then 0 else 1))
              (word_text (get_view Compact_word_view ?t)))]"
    by blast
  from this target have c: "selected_rows (select_word spec_ops Compact_word_view ?t) = [(2, 0)]"
    by (rule trans)
  from other sel a out' b inside' c show ?thesis by blast
qed

section \<open>Coordinates handed to the table\<close>

lemma clear_frame [simp]:
  "table_calls (clear vid s) = table_calls s"
  "vocab (clear vid s) = vocab s"
  by (simp_all add: clear_def Let_def)

lemma clear_deleted_frame [simp]:
  "table_calls (clear_deleted ws s) = table_calls s"
  "vocab (clear_deleted ws s) = vocab s"
  by (induction ws arbitrary: s; simp)+

lemma action_delete_calls:
  "table_calls (action_delete ops s)
     = table_calls s @ [Delete_rows (map backwards (selected_rows s))]"
  by (simp add: action_delete_def Let_def split: prod.split)

lemma textview_insert_first:
  assumes "fst (set_word ops (word_text (get_view vid s)) (textview_text (get_view vid s)) (vocab s))
      = Some r"
  shows "prefix (table_calls s @ [Insert_rows [r]]) (table_calls (textview_did_end_editing ops vid s))"
  using assms by (simp add: textview_calls prefix_def)

lemma load_definition_insert:
  assumes "definitions d \<noteq> []" and "get_notes ops (vocab s) word = []"
    and "fst (set_word ops word [] (vocab s)) = Some r"
  shows "table_calls (load_definition ops vid word d s) = table_calls s @ [Insert_rows [r]]"
  using assms by (cases "set_word ops word [] (vocab s)") (simp add: load_definition_def Let_def)

text \<open>
  The claim that every coordinate is converted once, in the same way, before
  \<^verbatim>\<open>insert_rows\<close> and \<^verbatim>\<open>delete_rows\<close> fails. With the row of \<^verbatim>\<open>apple\<close> selected, section
  1 and row 0, \<^verbatim>\<open>action_delete\<close> calls \<^verbatim>\<open>delete_rows\<close> with the pair turned round. Saving
  empty notes for the new word \<^verbatim>\<open>cat\<close> puts it at section 1, row 0, and \<^verbatim>\<open>insert_rows\<close> is
  called with that pair as the vocabulary returned it. Saving notes for \<^verbatim>\<open>Apple\<close> removes
  the stale \<^verbatim>\<open>apple\<close> of section 1, row 0, and \<^verbatim>\<open>delete_rows\<close> is called with the pair
  as returned, too.
\<close>

theorem mixed_conventions_counterexample:
  "selected_rows apple_selected_state = [(1, 0)]
   \<and> table_calls (action_delete spec_ops apple_selected_state) = [Delete_rows [(0, 1)]]
   \<and> coordinate_of (vocab (note_edit Word_view ''cat'' [] fruit_state)) ''cat'' = Some (1, 0)
   \<and> table_calls (note_edit Word_view ''cat'' [] fruit_state) = [Insert_rows [(1, 0)]]
   \<and> table_calls (note_edit Word_view ''Apple'' ''x'' fruit_state)
       = [Insert_rows [(0, 0)], Delete_rows [(1, 0)]]"
  by code_simp

text \<open>
  Claim C6, amended. \<^verbatim>\<open>action_delete\<close> takes the selected rows of the table, which are
  \<^verbatim>\<open>(section, row)\<close> pairs, and calls \<^verbatim>\<open>delete_rows\<close> once with every pair turned round to
  \<^verbatim>\<open>(row, section)\<close>. The coordinate that \<^verbatim>\<open>set_word\<close> returns is handed to
  \<^verbatim>\<open>insert_rows\<close> as it is, with no conversion, both when notes are saved and when a
  fetched definition is saved.
\<close>

theorem row_calls_at_boundary:
  "table_calls (action_delete ops s)
     = table_calls s @ [Delete_rows (map backwards (selected_rows s))]
   \<and> backwards (section, row) = (row, section)
   \<and> (fst (set_word ops (word_text (get_view vid s)) (textview_text (get_view vid s)) (vocab s))
         = Some r \<longrightarrow>
       prefix (table_calls s @ [Insert_rows [r]]) (table_calls (textview_did_end_editing ops vid s)))
   \<and> (definitions d \<noteq> [] \<and> get_notes ops (vocab s) word = []
        \<and> fst (set_word ops word [] (vocab s)) = Some r \<longrightarrow>
       table_calls (load_definition ops vid word d s) = table_calls s @ [Insert_rows [r]])"
proof (intro conjI impI)
  show "table_calls (action_delete ops s)
     = table_calls s @ [Delete_rows (map backwards (selected_rows s))]"
    by (rule action_delete_calls)
  show "backwards (section, row) = (row, section)"
    by (simp add: backwards_def)
next
  assume "fst (set_word ops (word_text (get_view vid s)) (textview_text (get_view vid s)) (vocab s))
         = Some r"
  then show "prefix (table_calls s @ [Insert_rows [r]])
      (table_calls (textview_did_end_editing ops vid s))"
    by (rule textview_insert_first)
next
  assume "definitions d \<noteq> [] \<and> get_notes ops (vocab s) word = []
        \<and> fst (set_word ops word [] (vocab s)) = Some r"
  then show "table_calls (load_definition ops vid word d s) = table_calls s @ [Insert_rows [r]]"
    by (simp add: load_definition_insert)
qed

theorem row_calls_at_boundary_witness:
  "fst (set_word spec_ops (word_text (get_view Word_view cat_typed_state))
         (textview_text (get_view Word_view cat_typed_state)) (vocab cat_typed_state)) = Some (1, 0)
   \<and> prefix (table_calls cat_typed_state @ [Insert_rows [(1, 0)]])
         (table_calls (textview_did_end_editing spec_ops Word_view cat_typed_state))
   \<and> definitions plum_definition \<noteq> []
   \<and> get_notes spec_ops (vocab moved_on_state) ''plum'' = []
   \<and> fst (set_word spec_ops ''plum'' [] (vocab moved_on_state)) = Some (1, 0)
   \<and> table_calls (load_definition spec_ops Word_view ''plum'' plum_definition moved_on_state)
       = table_calls moved_on_state @ [Insert_rows [(1, 0)]]
   \<and> table_calls (action_delete spec_ops apple_selected_state)
       = table_calls apple_selected_state
         @ [Delete_rows (map backwards (selected_rows apple_selected_state))]"
proof -
  have h1: "fst (set_word spec_ops (word_text (get_view Word_view cat_typed_state))
         (textview_text (get_view Word_view cat_typed_state)) (vocab cat_typed_state)) = Some (1, 0)"
    by code_simp
  have h2: "definitions plum_definition \<noteq> [] \<and> get_notes spec_ops (vocab moved_on_state) ''plum'' = []
      \<and> fst (set_word spec_ops ''plum'' [] (vocab moved_on_state)) = Some (1, 0)"
    by code_simp
  from row_calls_at_boundary
    [where s = cat_typed_state and vid = Word_view and ops = spec_ops and r = "(1, 0)"] h1
  have a: "prefix (table_calls cat_typed_state @ [Insert_rows [(1, 0)]])
         (table_calls (textview_did_end_editing spec_ops Word_view cat_typed_state))"
    by blast
  from row_calls_at_boundary
    [where s = moved_on_state and vid = Word_view and ops = spec_ops and r = "(1, 0)"
       and d = plum_definition and word = "''plum''"] h2
  have b: "table_calls (load_definition spec_ops Word_view ''plum'' plum_definition moved_on_state)
       = table_calls moved_on_state @ [Insert_rows [(1, 0)]]"
    by blast
  from row_calls_at_boundary [where s = apple_selected_state and ops = spec_ops]
  have c: "table_calls (action_delete spec_ops apple_selected_state)
       = table_calls apple_selected_state
         @ [Delete_rows (map backwards (selected_rows apple_selected_state))]"
    by blast
  from h1 h2 a b c show ?thesis by blast
qed

section \<open>The hashtag in the search field\<close>

lemma find_char_hash: "(find_char typed c \<noteq> - 1) = (c \<in> set typed)"
  by (simp add: find_char_def)

lemma type_query_vocab:
  "vocab (type_query ops typed s)
     = (if CHR ''#'' \<in> set typed then (set_query ops typed (vocab s))\<lparr>fulltext_toggle := True\<rparr>
        else set_query ops typed (vocab s))"
  by (simp add: type_query_def textfield_did_change_def Let_def find_char_hash
      action_switch_search_def textfield_did_end_editing_def)

lemma type_query_scope:
  "search_scope_index (type_query ops typed s)
     = (if CHR ''#'' \<in> set typed then 1 else search_scope_index s)"
  by (simp add: type_query_def textfield_did_change_def Let_def find_char_hash
      action_switch_search_def textfield_did_end_editing_def)

text \<open>
  The claim that full-text search is forced exactly when the marker leads the query text,
  and that the vocabulary never sees the marker, fails. The text \<^verbatim>\<open>tasty #fruit\<close> does not
  start with the marker; typing it turns full-text search on, and the query the vocabulary
  holds is the text as typed, marker included.
\<close>

theorem hashtag_not_leading_counterexample:
  "hd ''tasty #fruit'' \<noteq> CHR ''#''
   \<and> \<not> fulltext_toggle (vocab fruit_state)
   \<and> fulltext_toggle (vocab (type_query spec_ops ''tasty #fruit'' fruit_state))
   \<and> query spec_ops (vocab (type_query spec_ops ''tasty #fruit'' fruit_state)) = ''tasty #fruit''"
  by code_simp

text \<open>
  Claim C9, amended. \<^verbatim>\<open>textfield_did_change\<close> first hands the text of the search field
  to \<^verbatim>\<open>vocab.set_query\<close> as it is. If the character \<^verbatim>\<open>#\<close> occurs anywhere in the text,
  the scope control is then set to index 1 and \<^verbatim>\<open>fulltext_toggle\<close> to true; if it does not
  occur, the scope control and the toggle are left as they are.
\<close>

theorem hashtag_forces_fulltext:
  "vocab (type_query ops typed s)
     = (if CHR ''#'' \<in> set typed then (set_query ops typed (vocab s))\<lparr>fulltext_toggle := True\<rparr>
        else set_query ops typed (vocab s))
   \<and> search_scope_index (type_query ops typed s)
     = (if CHR ''#'' \<in> set typed then 1 else search_scope_index s)"
  by (simp only: type_query_vocab type_query_scope simp_thms)

theorem hashtag_forces_fulltext_witness:
  "CHR ''#'' \<in> set ''tasty #fruit''
   \<and> vocab (type_query spec_ops ''tasty #fruit'' fruit_state)
       = (set_query spec_ops ''tasty #fruit'' (vocab fruit_state))\<lparr>fulltext_toggle := True\<rparr>
   \<and> search_scope_index (type_query spec_ops ''tasty #fruit'' fruit_state) = 1
   \<and> CHR ''#'' \<notin> set ''ap''
   \<and> vocab (type_query spec_ops ''ap'' fruit_state) = set_query spec_ops ''ap'' (vocab fruit_state)
   \<and> search_scope_index (type_query spec_ops ''ap'' fruit_state) = search_scope_index fruit_state"
proof -
  have i: "CHR ''#'' \<in> set ''tasty #fruit''" and o: "CHR ''#'' \<notin> set ''ap''"
    by simp_all
  from hashtag_forces_fulltext [where ops = spec_ops and typed = "''tasty #fruit''" and s = fruit_state] i
  have a: "vocab (type_query spec_ops ''tasty #fruit'' fruit_state)
       = (set_query spec_ops ''tasty #fruit'' (vocab fruit_state))\<lparr>fulltext_toggle := True\<rparr>
     \<and> search_scope_index (type_query spec_ops ''tasty #fruit'' fruit_state) = 1"
    by (simp only: if_True)
  from hashtag_forces_fulltext [where ops = spec_ops and typed = "''ap''" and s = fruit_state] o
  have b: "vocab (type_query spec_ops ''ap'' fruit_state) = set_query spec_ops ''ap'' (vocab fruit_state)
     \<and> search_scope_index (type_query spec_ops ''ap'' fruit_state) = search_scope_index fruit_state"
    by (simp only: if_False)
  from i o a b show ?thesis by blast
qed

end
